theory Spec2Isabelle
  imports Complex_Main "HOL-Library.Log_Nat"
begin

section \<open>Python values used by \<^verbatim>\<open>app.py\<close>\<close>

subsection \<open>Floats\<close>

text \<open>
  A Python \<^verbatim>\<open>float\<close> is an IEEE-754 double.  A finite double is represented by the
  rational number it denotes, and every float operation of the source is its exact result
  rounded to the nearest double, ties to the even significand (\<open>fl\<close>).  Infinities, NaN,
  the sign of zero and overflow are not represented: the scores of a classifier and the
  sizes of uploads stay far inside the finite range.
\<close>

definition round_half_even :: "rat \<Rightarrow> int" where
  "round_half_even q =
     (let f = \<lfloor>q\<rfloor>; r = q - of_int f
      in if r < 1 / 2 then f
         else if 1 / 2 < r then f + 1
         else if even f then f else f + 1)"

definition pow2 :: "int \<Rightarrow> rat" where
  "pow2 e = (if 0 \<le> e then 2 ^ nat e else 1 / 2 ^ nat (- e))"

text \<open>\<open>float_exponent q\<close> is the \<open>e\<close> with \<open>2^e \<le> q < 2^(e+1)\<close>, for \<open>q > 0\<close>.\<close>

definition float_exponent :: "rat \<Rightarrow> int" where
  "float_exponent q =
     (let (a, b) = quotient_of q; e0 = bitlen a - bitlen b
      in if pow2 e0 \<le> q then e0 else e0 - 1)"

text \<open>
  The nearest double: 53 significant bits, the unit in the last place never below
  \<open>2^-1074\<close> (gradual underflow).
\<close>

definition fl :: "rat \<Rightarrow> rat" where
  "fl q =
     (if q = 0 then 0
      else let p = max (float_exponent \<bar>q\<bar> - 52) (- 1074);
               m = round_half_even (\<bar>q\<bar> / pow2 p)
           in sgn q * of_int m * pow2 p)"

text \<open>A decimal literal of the source, such as \<^verbatim>\<open>0.90\<close>, denotes the nearest double.\<close>

definition float_lit :: "rat \<Rightarrow> rat" where
  "float_lit d = fl d"

text \<open>\<^verbatim>\<open>x * y\<close> and \<^verbatim>\<open>x / y\<close> on floats (an \<^verbatim>\<open>int\<close> operand is converted first;
  the integers of the source, 100 and 1024, are doubles themselves).\<close>

definition float_mul :: "rat \<Rightarrow> rat \<Rightarrow> rat" where
  "float_mul x y = fl (x * y)"

definition float_div :: "rat \<Rightarrow> rat \<Rightarrow> rat" where
  "float_div x y = fl (x / y)"

text \<open>
  \<^verbatim>\<open>round(x, ndigits)\<close> on a float: CPython rounds the exact value of \<open>x\<close> to
  \<open>ndigits\<close> decimal places, ties to even, and returns the double nearest to that decimal.
\<close>

definition py_round :: "rat \<Rightarrow> nat \<Rightarrow> rat" where
  "py_round x ndigits = fl (of_int (round_half_even (x * 10 ^ ndigits)) / 10 ^ ndigits)"

subsection \<open>Strings\<close>

text \<open>Strings are ASCII strings; \<^verbatim>\<open>str.lower\<close> maps \<open>A\<close>..\<open>Z\<close> to \<open>a\<close>..\<open>z\<close>.\<close>

definition char_lower :: "char \<Rightarrow> char" where
  "char_lower c =
     (let n = (of_char c :: nat) in if 65 \<le> n \<and> n \<le> 90 then char_of (n + 32) else c)"

definition str_lower :: "string \<Rightarrow> string" where
  "str_lower s = map char_lower s"

fun starts_with :: "string \<Rightarrow> string \<Rightarrow> bool" where
  "starts_with [] s = True"
| "starts_with (k # ks) [] = False"
| "starts_with (k # ks) (c # cs) = (k = c \<and> starts_with ks cs)"

text \<open>\<^verbatim>\<open>kw in s\<close> on strings: \<open>kw\<close> occurs in \<open>s\<close> as a contiguous substring.\<close>

fun str_contains :: "string \<Rightarrow> string \<Rightarrow> bool" where
  "str_contains kw [] = (kw = [])"
| "str_contains kw (c # cs) = (starts_with kw (c # cs) \<or> str_contains kw cs)"

definition digit_char :: "nat \<Rightarrow> char" where
  "digit_char d = ''0123456789'' ! (d mod 10)"

text \<open>\<^verbatim>\<open>str(n)\<close> for a natural number: its decimal digits.\<close>

fun str_of_nat :: "nat \<Rightarrow> string" where
  "str_of_nat n = (if n < 10 then [digit_char n] else str_of_nat (n div 10) @ [digit_char n])"

text \<open>The f-string field \<^verbatim>\<open>{content_type}\<close>: a string as it is, \<^verbatim>\<open>None\<close> as its name.\<close>

definition str_of_optional :: "string option \<Rightarrow> string" where
  "str_of_optional v = (case v of None \<Rightarrow> ''None'' | Some s \<Rightarrow> s)"

text \<open>
  The f-string field \<^verbatim>\<open>{x:.2f}\<close> for a float \<open>x \<ge> 0\<close>: the exact value of \<open>x\<close> rounded
  to two decimal places, ties to even, written with both decimals.
\<close>

definition format_2f :: "rat \<Rightarrow> string" where
  "format_2f x =
     (let h = nat (round_half_even (x * 100))
      in str_of_nat (h div 100) @ ''.'' @ [digit_char (h div 10), digit_char h])"

text \<open>
  The f-string field \<^verbatim>\<open>{pct}\<close> for a float \<open>pct \<ge> 0\<close> that \<^verbatim>\<open>round(_, 1)\<close> returned: the
  float's \<^verbatim>\<open>repr\<close>, the shortest decimal that reads back as the same double.  For the
  double nearest to \<open>t / 10\<close> (below \<open>10^14\<close>) that decimal is \<open>t / 10\<close> itself, written with
  its one decimal place.
\<close>

definition float_repr_1dp :: "rat \<Rightarrow> string" where
  "float_repr_1dp pct =
     (let t = nat (round_half_even (pct * 10))
      in str_of_nat (t div 10) @ ''.'' @ [digit_char t])"

section \<open>The application\<close>

subsection \<open>Data\<close>

text \<open>
  An uploaded file (werkzeug's \<^verbatim>\<open>FileStorage\<close>): the declared file name, the declared
  content type (\<^verbatim>\<open>None\<close> when the part has no such header) and a seekable byte stream,
  given by its bytes and the current position.
\<close>

type_synonym bytes = "char list"

record file_storage =
  filename :: string
  content_type :: "string option"
  stream_data :: bytes
  stream_pos :: nat

text \<open>\<^verbatim>\<open>file.seek(0, os.SEEK_END)\<close>, \<^verbatim>\<open>file.tell()\<close>, \<^verbatim>\<open>file.seek(0)\<close> and
  \<^verbatim>\<open>file.read()\<close>.\<close>

definition seek_end :: "file_storage \<Rightarrow> file_storage" where
  "seek_end file = file\<lparr>stream_pos := length (stream_data file)\<rparr>"

definition tell :: "file_storage \<Rightarrow> nat" where
  "tell file = stream_pos file"

definition seek_start :: "file_storage \<Rightarrow> file_storage" where
  "seek_start file = file\<lparr>stream_pos := 0\<rparr>"

definition read_all :: "file_storage \<Rightarrow> bytes \<times> file_storage" where
  "read_all file =
     (drop (stream_pos file) (stream_data file),
      file\<lparr>stream_pos := max (stream_pos file) (length (stream_data file))\<rparr>)"

text \<open>The request, as far as the handler reads it: \<^verbatim>\<open>request.files\<close>; the other form
  fields travel with it and are never read.\<close>

record request =
  files :: "string \<rightharpoonup> file_storage"
  form :: "string \<rightharpoonup> string"

text \<open>
  Exceptions: \<^verbatim>\<open>ValueError\<close> is what \<^verbatim>\<open>max\<close> raises on an empty sequence;
  \<open>LibraryError\<close> stands for any exception raised inside the image library or the model.
\<close>

datatype py_exception = ValueError | LibraryError string

subsection \<open>Constants\<close>

definition MAX_FILE_SIZE :: nat where
  "MAX_FILE_SIZE = 5 * 1024 * 1024"

definition ALLOWED_EXTENSIONS :: "string set" where
  "ALLOWED_EXTENSIONS = {''image/jpeg'', ''image/png'', ''image/webp''}"

subsection \<open>\<^verbatim>\<open>validate_image\<close>\<close>

text \<open>\<^verbatim>\<open>content_type not in ALLOWED_EXTENSIONS\<close>, where \<^verbatim>\<open>None\<close> is in no set of strings.\<close>

definition not_allowed :: "string option \<Rightarrow> bool" where
  "not_allowed ct = (case ct of None \<Rightarrow> True | Some s \<Rightarrow> s \<notin> ALLOWED_EXTENSIONS)"

text \<open>The two messages of a rejection.\<close>

definition invalid_type_msg :: "string option \<Rightarrow> string" where
  "invalid_type_msg ct =
     ''Invalid file type '' @ [CHR 0x27] @ str_of_optional ct @ [CHR 0x27]
       @ ''. Only JPG, PNG, WEBP allowed.''"

definition too_large_msg :: "nat \<Rightarrow> string" where
  "too_large_msg sz =
     ''File too large ('' @ format_2f (float_div (float_div (of_nat sz) 1024) 1024)
       @ '' MB). Max is 5 MB.''"

text \<open>The function returns its pair and the file, whose stream position it moves.\<close>

definition validate_image :: "file_storage \<Rightarrow> (bool \<times> string) \<times> file_storage" where
  "validate_image file =
     (if not_allowed (content_type file) then
        ((False, invalid_type_msg (content_type file)), file)
      else
        let file1 = seek_end file;
            sz = tell file1;
            file2 = seek_start file1
        in if sz > MAX_FILE_SIZE then ((False, too_large_msg sz), file2)
           else ((True, []), file2))"

subsection \<open>\<^verbatim>\<open>build_explanation\<close>\<close>

definition build_explanation :: "string \<Rightarrow> rat \<Rightarrow> string" where
  "build_explanation label confidence =
     (let pct = float_repr_1dp (py_round (float_mul confidence 100) 1)
      in if label = ''AI Generated'' then
           if confidence \<ge> float_lit (9 / 10) then
             ''The model is highly confident ('' @ pct @ ''%) this image was created by an AI system. Telltale signs include hyper-smooth textures, unnatural lighting gradients, and structural inconsistencies typical of generative models.''
           else if confidence \<ge> float_lit (7 / 10) then
             ''The model suspects ('' @ pct @ ''%) this image is AI-generated. Several subtle artifacts such as irregular edges or blended features are characteristic of diffusion or GAN-based synthesis.''
           else
             ''The model leans toward AI-generated ('' @ pct @ ''%), but with moderate uncertainty. The image has some synthetic-looking qualities, though it shares traits with real photography too.''
         else
           if confidence \<ge> float_lit (9 / 10) then
             ''The model is highly confident ('' @ pct @ ''%) this is a real photograph. Natural noise patterns, authentic lighting, and organic imperfections are consistent with a camera-captured image.''
           else if confidence \<ge> float_lit (7 / 10) then
             ''The model believes ('' @ pct @ ''%) this is a real image. It exhibits mostly authentic photographic characteristics, with only minor ambiguities.''
           else
             ''The model leans toward real ('' @ pct @ ''%), but is not highly certain. This image sits near the boundary between AI-generated and real photography.'')"

subsection \<open>\<^verbatim>\<open>predict\<close>\<close>

text \<open>One entry of the classifier's output, \<^verbatim>\<open>{"label": ..., "score": ...}\<close>.\<close>

record classification =
  label :: string
  score :: rat

text \<open>The dictionary of a successful response.\<close>

record prediction_response =
  prediction :: string
  confidence :: rat
  explanation :: string

text \<open>What \<^verbatim>\<open>jsonify\<close> is given: \<^verbatim>\<open>{"error": msg}\<close> or the response dictionary.\<close>

datatype json_body = ErrorBody string | PredictionBody prediction_response

text \<open>\<^verbatim>\<open>max(results, key=lambda x: x["score"])\<close>: the first entry of the greatest score;
  \<^verbatim>\<open>ValueError\<close> on an empty sequence.\<close>

fun max_by_score :: "classification list \<Rightarrow> py_exception + classification" where
  "max_by_score [] = Inl ValueError"
| "max_by_score (x # xs) =
     Inr (foldl (\<lambda>best y. if score best < score y then y else best) x xs)"

definition KEYWORDS :: "string list" where
  "KEYWORDS = [''artificial'', ''fake'', ''ai'', ''generated'', ''synthetic'']"

text \<open>Lines 112 and 115 to 118 of the handler: the label in lower case, searched for the
  keywords.\<close>

definition normalize_label :: "string \<Rightarrow> string" where
  "normalize_label raw =
     (let raw_label = str_lower raw
      in if list_ex (\<lambda>kw. str_contains kw raw_label) KEYWORDS then ''AI Generated''
         else ''Real'')"

text \<open>Lines 111 to 125 of the handler: from the classifier's output to the response
  dictionary.\<close>

definition response_of_results :: "classification list \<Rightarrow> py_exception + prediction_response" where
  "response_of_results results =
     (case max_by_score results of
        Inl e \<Rightarrow> Inl e
      | Inr top_entry \<Rightarrow>
          let confidence = py_round (score top_entry) 4;
              prediction = normalize_label (label top_entry);
              explanation = build_explanation prediction confidence
          in Inr \<lparr>prediction = prediction,
                  confidence = py_round (float_mul confidence 100) 2,
                  explanation = explanation\<rparr>)"

text \<open>
  The handler.  Its surroundings are parameters: \<open>classifier\<close> is the module's global,
  \<open>None\<close> when loading the model failed, otherwise the model as a function that returns
  its output or raises; \<open>decode\<close> is \<^verbatim>\<open>Image.open(io.BytesIO(_)).convert("RGB")\<close>, which
  returns an image or raises.  The result is the pair \<^verbatim>\<open>(jsonify(body), status)\<close> the
  handler returns, or the exception that leaves it.  Logging is left out.
\<close>

definition predict ::
  "('img \<Rightarrow> py_exception + classification list) option \<Rightarrow> (bytes \<Rightarrow> py_exception + 'img)
     \<Rightarrow> request \<Rightarrow> py_exception + (json_body \<times> nat)" where
  "predict classifier decode req =
     (case classifier of
        None \<Rightarrow> Inr (ErrorBody ''Model not loaded. Please check server logs.'', 503)
      | Some model \<Rightarrow>
          (case files req ''image'' of
             None \<Rightarrow> Inr (ErrorBody ''No image file provided.'', 400)
           | Some file \<Rightarrow>
               if filename file = [] then Inr (ErrorBody ''Empty filename.'', 400)
               else
                 let ((valid, msg), file1) = validate_image file
                 in if \<not> valid then Inr (ErrorBody msg, 422)
                    else
                      let (image_bytes, file2) = read_all file1
                      in (case decode image_bytes of
                            Inl e \<Rightarrow>
                              Inr (ErrorBody ''Could not read image. File may be corrupted.'', 422)
                          | Inr img \<Rightarrow>
                              (case model img of
                                 Inl e \<Rightarrow> Inr (ErrorBody ''Model inference failed.'', 500)
                               | Inr results \<Rightarrow>
                                   (case response_of_results results of
                                      Inl e \<Rightarrow> Inl e
                                    | Inr response \<Rightarrow> Inr (PredictionBody response, 200))))))"

section \<open>The band table of the specification\<close>

text \<open>
  Section 4.4 of the specification: three confidence bands, bounded by the floats \<^verbatim>\<open>0.90\<close>
  and \<^verbatim>\<open>0.70\<close>, and one text for each label and band, with a place for the percentage.
  The six texts are those of the source.
\<close>

datatype band = High | Medium | Low

definition confidence_band :: "rat \<Rightarrow> band" where
  "confidence_band c =
     (if float_lit (9 / 10) \<le> c then High
      else if float_lit (7 / 10) \<le> c then Medium
      else Low)"

fun ai_template :: "band \<Rightarrow> string \<Rightarrow> string" where
  "ai_template High p =
     ''The model is highly confident ('' @ p @ ''%) this image was created by an AI system. Telltale signs include hyper-smooth textures, unnatural lighting gradients, and structural inconsistencies typical of generative models.''"
| "ai_template Medium p =
     ''The model suspects ('' @ p @ ''%) this image is AI-generated. Several subtle artifacts such as irregular edges or blended features are characteristic of diffusion or GAN-based synthesis.''"
| "ai_template Low p =
     ''The model leans toward AI-generated ('' @ p @ ''%), but with moderate uncertainty. The image has some synthetic-looking qualities, though it shares traits with real photography too.''"

fun real_template :: "band \<Rightarrow> string \<Rightarrow> string" where
  "real_template High p =
     ''The model is highly confident ('' @ p @ ''%) this is a real photograph. Natural noise patterns, authentic lighting, and organic imperfections are consistent with a camera-captured image.''"
| "real_template Medium p =
     ''The model believes ('' @ p @ ''%) this is a real image. It exhibits mostly authentic photographic characteristics, with only minor ambiguities.''"
| "real_template Low p =
     ''The model leans toward real ('' @ p @ ''%), but is not highly certain. This image sits near the boundary between AI-generated and real photography.''"

section \<open>Sample inputs\<close>

text \<open>A fresh upload, its stream at the start, and a request that carries it in the field
  \<^verbatim>\<open>image\<close>.\<close>

definition upload :: "string \<Rightarrow> string option \<Rightarrow> bytes \<Rightarrow> file_storage" where
  "upload name ct bs = \<lparr>filename = name, content_type = ct, stream_data = bs, stream_pos = 0\<rparr>"

definition image_request :: "file_storage \<Rightarrow> request" where
  "image_request f = \<lparr>files = [''image'' \<mapsto> f], form = Map.empty\<rparr>"

text \<open>A decoder that accepts every upload (the image is its bytes) and one that rejects
  every upload; a model that returns a fixed output and one that raises.\<close>

definition accepting_decode :: "bytes \<Rightarrow> py_exception + bytes" where
  "accepting_decode bs = Inr bs"

definition rejecting_decode :: "bytes \<Rightarrow> py_exception + bytes" where
  "rejecting_decode bs = Inl (LibraryError ''cannot identify image file'')"

definition fixed_model :: "classification list \<Rightarrow> bytes \<Rightarrow> py_exception + classification list" where
  "fixed_model rs img = Inr rs"

definition raising_model :: "bytes \<Rightarrow> py_exception + classification list" where
  "raising_model img = Inl (LibraryError ''out of memory'')"

definition artificial_output :: "classification list" where
  "artificial_output =
     [\<lparr>label = ''human'', score = float_lit (77 / 1000)\<rparr>,
      \<lparr>label = ''artificial'', score = float_lit (923 / 1000)\<rparr>]"

text \<open>Uploads of several sizes and declared types.\<close>

definition small_jpeg :: file_storage where
  "small_jpeg = upload ''cat.jpg'' (Some ''image/jpeg'') ''JFIF''"

definition small_png :: file_storage where
  "small_png = upload ''dog.png'' (Some ''image/png'') ''PNG''"

definition full_png :: file_storage where
  "full_png = upload ''full.png'' (Some ''image/png'') (replicate 5242880 (CHR 0x00))"

definition large_jpeg :: file_storage where
  "large_jpeg = upload ''big.jpg'' (Some ''image/jpeg'') (replicate 6000000 (CHR 0x00))"

definition large_gif :: file_storage where
  "large_gif = upload ''big.gif'' (Some ''image/gif'') (replicate 6000000 (CHR 0x00))"

definition large_untyped :: file_storage where
  "large_untyped = upload ''big.bin'' None (replicate 5242881 (CHR 0x00))"

text \<open>A second request with the same image as \<open>image_request small_jpeg\<close>, another file and
  a form field beside it.\<close>

definition crowded_request :: request where
  "crowded_request =
     \<lparr>files = [''image'' \<mapsto> small_jpeg, ''thumbnail'' \<mapsto> large_gif],
      form = [''comment'' \<mapsto> ''holiday'']\<rparr>"


section \<open>Properties of the float model\<close>

lemma round_half_even_error: "\<bar>of_int (round_half_even x) - x\<bar> \<le> 1 / 2"
proof -
  have "of_int \<lfloor>x\<rfloor> \<le> x" "x < of_int \<lfloor>x\<rfloor> + 1" by linarith+
  then show ?thesis
    by (auto simp: round_half_even_def Let_def)
qed

lemma round_half_even_near:
  assumes "\<bar>x - of_int t\<bar> < 1 / 2"
  shows "round_half_even x = t"
proof (cases "of_int t \<le> x")
  case True
  with assms have "\<lfloor>x\<rfloor> = t" by (intro floor_unique) auto
  with assms True show ?thesis by (auto simp: round_half_even_def Let_def)
next
  case False
  with assms have "\<lfloor>x\<rfloor> = t - 1" by (intro floor_unique) auto
  with assms False show ?thesis by (auto simp: round_half_even_def Let_def)
qed

lemma round_half_even_of_int: "round_half_even (of_int t) = t"
  by (rule round_half_even_near) simp

lemma round_half_even_nonneg: "0 \<le> x \<Longrightarrow> 0 \<le> round_half_even x"
  by (auto simp: round_half_even_def Let_def)

lemma pow2_pos: "0 < pow2 e"
  by (simp add: pow2_def)

lemma pow2_diff: "pow2 (a - b) = pow2 a / pow2 b"
proof -
  have p: "pow2 e = 2 powi e" for e
    by (simp add: pow2_def power_int_def field_simps)
  show ?thesis by (simp add: p power_int_diff)
qed

lemma float_exponent_le:
  assumes "0 < q"
  shows "pow2 (float_exponent q) \<le> q"
proof -
  obtain a b where ab: "quotient_of q = (a, b)" by (cases "quotient_of q")
  then have b: "0 < b" by (rule quotient_of_denom_pos)
  have q: "q = of_int a / of_int b" using ab by (rule quotient_of_div)
  with assms b have a: "0 < a" by (simp add: zero_less_divide_iff)
  have la: "(2::int) ^ nat (bitlen a - 1) \<le> a" using bitlen_bounds [OF a] by simp
  have lb: "b < 2 ^ nat (bitlen b)" using bitlen_bounds [OF b] by simp
  have la1: "1 \<le> bitlen a" using a by (simp add: bitlen_alt_def) 
  have lb0: "0 \<le> bitlen b" by (rule bitlen_nonneg)
  have "pow2 (bitlen a - bitlen b - 1) = pow2 (bitlen a - 1) / pow2 (bitlen b)"
    using pow2_diff [of "bitlen a - 1" "bitlen b"] by (simp add: algebra_simps)
  also have "\<dots> = of_int (2 ^ nat (bitlen a - 1)) / of_int (2 ^ nat (bitlen b))"
    using la1 lb0 by (simp add: pow2_def)
  also have "\<dots> \<le> of_int a / of_int b"
  proof (rule frac_le)
    show "(0::rat) \<le> of_int a" using a by simp
    show "(of_int (2 ^ nat (bitlen a - 1)) :: rat) \<le> of_int a" using la by (simp only: of_int_le_iff)
    show "(0::rat) < of_int b" using b by simp
    show "(of_int b :: rat) \<le> of_int (2 ^ nat (bitlen b))" using lb by (simp only: of_int_le_iff)
  qed
  finally have low: "pow2 (bitlen a - bitlen b - 1) \<le> q" using q by simp
  show ?thesis
    using low by (simp add: float_exponent_def ab Let_def)
qed

lemma fl_error: "\<bar>fl q - q\<bar> \<le> \<bar>q\<bar> / 2 ^ 53 + 1 / 2 ^ 1075"
proof (cases "q = 0")
  case True
  then show ?thesis by (simp add: fl_def)
next
  case False
  define e where "e = float_exponent \<bar>q\<bar>"
  define p where "p = max (e - 52) (- 1074)"
  define m where "m = round_half_even (\<bar>q\<bar> / pow2 p)"
  have P: "0 < pow2 p" by (rule pow2_pos)
  have flq: "fl q = sgn q * (of_int m * pow2 p)"
    using False by (simp add: fl_def Let_def e_def p_def m_def mult.assoc)
  have "fl q - q = sgn q * (of_int m * pow2 p) - sgn q * \<bar>q\<bar>"
    by (simp only: flq sgn_mult_abs)
  also have "\<dots> = sgn q * (of_int m * pow2 p - \<bar>q\<bar>)"
    by (simp only: right_diff_distrib)
  finally have "\<bar>fl q - q\<bar> = \<bar>of_int m * pow2 p - \<bar>q\<bar>\<bar>"
    using False by (simp only: abs_mult abs_sgn_eq) simp
  also have "of_int m * pow2 p - \<bar>q\<bar> = (of_int m - \<bar>q\<bar> / pow2 p) * pow2 p"
    using P by (simp add: left_diff_distrib)
  also have "\<bar>\<dots>\<bar> = \<bar>of_int m - \<bar>q\<bar> / pow2 p\<bar> * pow2 p"
    using P by (simp only: abs_mult abs_of_pos)
  also have "\<dots> \<le> 1 / 2 * pow2 p"
    using round_half_even_error [of "\<bar>q\<bar> / pow2 p"] P
    by (intro mult_right_mono) (simp_all only: m_def less_imp_le)
  finally have step: "\<bar>fl q - q\<bar> \<le> pow2 p / 2" by simp
  have q53: "0 \<le> \<bar>q\<bar> / 2 ^ 53" by simp
  have "pow2 p / 2 \<le> \<bar>q\<bar> / 2 ^ 53 + 1 / 2 ^ 1075"
  proof (cases "e - 52 \<le> - 1074")
    case True
    then have "p = - 1074" by (simp add: p_def)
    then have "pow2 p = 1 / 2 ^ 1074" by (simp add: pow2_def)
    then have "pow2 p / 2 = 1 / 2 ^ 1075" by simp
    with q53 show ?thesis by linarith
  next
    case False
    then have "p = e - 52" by (simp add: p_def)
    then have "pow2 p = pow2 e / pow2 52" by (simp only: pow2_diff)
    also have "pow2 52 = 2 ^ 52" by (simp add: pow2_def)
    finally have pe: "pow2 p = pow2 e / 2 ^ 52" .
    have "pow2 e \<le> \<bar>q\<bar>" unfolding e_def using \<open>q \<noteq> 0\<close> by (intro float_exponent_le) simp
    then have "pow2 e / 2 ^ 52 / 2 \<le> \<bar>q\<bar> / 2 ^ 52 / 2" by (simp add: divide_right_mono)
    then have "pow2 p / 2 \<le> \<bar>q\<bar> / 2 ^ 53" by (simp add: pe)
    then show ?thesis by simp
  qed
  with step show ?thesis by linarith
qed

lemma fl_nonneg:
  assumes "0 \<le> q"
  shows "0 \<le> fl q"
proof (cases "q = 0")
  case True
  then show ?thesis by (simp add: fl_def)
next
  case False
  define p where "p = max (float_exponent \<bar>q\<bar> - 52) (- 1074)"
  have "0 \<le> \<bar>q\<bar> / pow2 p" using pow2_pos [of p] by simp
  then have "0 \<le> round_half_even (\<bar>q\<bar> / pow2 p)" by (rule round_half_even_nonneg)
  then have "0 \<le> of_int (round_half_even (\<bar>q\<bar> / pow2 p)) * pow2 p"
    using pow2_pos [of p] by simp
  then show ?thesis using assms False by (simp add: fl_def Let_def p_def mult.assoc)
qed

lemma fl_error_53: "\<bar>fl q - q\<bar> \<le> (\<bar>q\<bar> + 1) / 2 ^ 53"
proof -
  have "(1::rat) / 2 ^ 1075 \<le> 1 / 2 ^ 53"
    by (intro divide_left_mono power_increasing) simp_all
  with fl_error [of q] show ?thesis by (simp add: add_divide_distrib)
qed

text \<open>The same bound without a division: \<open>2^53 = 9007199254740992\<close>.\<close>

lemma fl_error_mult:
  "fl q * 9007199254740992 \<le> q * 9007199254740992 + \<bar>q\<bar> + 1"
  "q * 9007199254740992 \<le> fl q * 9007199254740992 + \<bar>q\<bar> + 1"
proof -
  define D where "D = \<bar>fl q - q\<bar>"
  define Q where "Q = \<bar>q\<bar>"
  have "D \<le> (Q + 1) / 2 ^ 53" unfolding D_def Q_def by (rule fl_error_53)
  then have D: "D * 9007199254740992 \<le> Q + 1" by (simp add: field_simps)
  have "fl q - q \<le> D" "q - fl q \<le> D" by (simp_all add: D_def)
  with D have "fl q * 9007199254740992 \<le> q * 9007199254740992 + Q + 1"
    "q * 9007199254740992 \<le> fl q * 9007199254740992 + Q + 1" by linarith+
  then show "fl q * 9007199254740992 \<le> q * 9007199254740992 + \<bar>q\<bar> + 1"
    "q * 9007199254740992 \<le> fl q * 9007199254740992 + \<bar>q\<bar> + 1" by (simp_all only: Q_def)
qed

lemma round_half_even_le:
  assumes "x < of_int n + 1 / 2"
  shows "round_half_even x \<le> n"
proof -
  have "of_int (round_half_even x) < (of_int n :: rat) + 1"
    using round_half_even_error [of x] assms by linarith
  then have "of_int (round_half_even x) < (of_int (n + 1) :: rat)" by simp
  then have "round_half_even x < n + 1" by (simp only: of_int_less_iff)
  then show ?thesis by simp
qed

text \<open>A decimal with few digits survives the passage through the nearest double.\<close>

lemma decimal_roundtrip:
  assumes d: "d \<in> {10, 100, 10000}" and k: "\<bar>k\<bar> \<le> 1000000"
  shows "round_half_even (fl (of_int k / d) * d) = k"
proof (rule round_half_even_near)
  have dpos: "0 < d" and dle: "d \<le> 10000" using d by auto
  have kq: "\<bar>of_int k :: rat\<bar> \<le> 1000000" using k by (simp flip: of_int_abs)
  have "\<bar>of_int k / d\<bar> \<le> \<bar>of_int k\<bar>"
    using d by (auto simp: divide_le_eq)
  with kq have small: "\<bar>of_int k / d\<bar> \<le> 1000000" by linarith
  have "fl (of_int k / d) * d - of_int k = (fl (of_int k / d) - of_int k / d) * d"
    using dpos by (simp add: left_diff_distrib)
  then have "\<bar>fl (of_int k / d) * d - of_int k\<bar> = \<bar>fl (of_int k / d) - of_int k / d\<bar> * d"
    using dpos by (simp only: abs_mult abs_of_pos)
  also have "\<dots> \<le> (\<bar>of_int k / d\<bar> + 1) / 2 ^ 53 * d"
    using fl_error_53 [of "of_int k / d"] dpos by (intro mult_right_mono) simp_all
  also have "\<dots> \<le> (1000000 + 1) / 2 ^ 53 * 10000"
    using small dle dpos by (intro mult_mono divide_right_mono) simp_all
  also have "\<dots> < 1 / 2" by simp
  finally show "\<bar>fl (of_int k / d) * d - of_int k\<bar> < 1 / 2" .
qed

lemma round_half_even_unit:
  assumes "0 \<le> s" "s \<le> 1"
  shows "0 \<le> round_half_even (s * 10000)" "round_half_even (s * 10000) \<le> 10000"
proof -
  show "0 \<le> round_half_even (s * 10000)"
    using assms by (intro round_half_even_nonneg) simp
  have "s * 10000 < of_int 10000 + 1 / 2" using assms by simp
  then show "round_half_even (s * 10000) \<le> 10000" by (rule round_half_even_le)
qed

text \<open>\<^verbatim>\<open>round(round(s, 4) * 100, 2)\<close> is the double nearest to the percentage of \<open>s\<close> with
  two decimals: the second rounding changes nothing.\<close>

lemma percent_of_score:
  assumes "0 \<le> s" "s \<le> 1"
  shows "py_round (float_mul (py_round s 4) 100) 2
           = fl (of_int (round_half_even (s * 10000)) / 100)"
proof -
  define k where "k = round_half_even (s * 10000)"
  define K :: rat where "K = of_int k / 10000"
  define a where "a = fl K"
  define b where "b = fl (a * 100)"
  have k0: "0 \<le> k" and k1: "k \<le> 10000"
    using round_half_even_unit [OF assms] by (simp_all add: k_def)
  have K0: "0 \<le> K" using k0 by (simp add: K_def)
  have "(of_int k :: rat) \<le> of_int 10000" using k1 by (simp only: of_int_le_iff)
  then have K1: "K \<le> 1" by (simp add: K_def)
  have Kabs: "\<bar>K\<bar> = K" using K0 by simp
  have a1: "a * 9007199254740992 \<le> K * 9007199254740992 + K + 1"
    and a2: "K * 9007199254740992 \<le> a * 9007199254740992 + K + 1"
    using fl_error_mult [of K] by (simp_all only: a_def Kabs)
  have a0: "0 \<le> a" using K0 by (simp add: a_def fl_nonneg)
  then have aabs: "\<bar>a * 100\<bar> = a * 100" by simp
  have b1: "b * 9007199254740992 \<le> a * 900719925474099200 + a * 100 + 1"
    and b2: "a * 900719925474099200 \<le> b * 9007199254740992 + a * 100 + 1"
    using fl_error_mult [of "a * 100"] by (simp_all add: b_def aabs)
  have "b * 100 - K * 10000 < 1 / 2" "K * 10000 - b * 100 < 1 / 2"
    using K0 K1 a1 a2 b1 b2 by linarith+
  then have "\<bar>b * 100 - K * 10000\<bar> < 1 / 2" by (simp only: abs_less_iff minus_diff_eq)
  moreover have "K * 10000 = of_int k" by (simp add: K_def)
  ultimately have "round_half_even (b * 100) = k"
    by (intro round_half_even_near) simp
  then show ?thesis
    by (simp add: py_round_def float_mul_def b_def a_def K_def k_def)
qed

text \<open>The percentage in the explanation: between 0.0 and 100.0, with one decimal.\<close>

lemma percent_text:
  assumes "0 \<le> c" "c < 1"
  defines "t \<equiv> round_half_even (float_mul c 100 * 10)"
  shows "0 \<le> t" "t \<le> 1000"
    and "float_repr_1dp (py_round (float_mul c 100) 1)
           = str_of_nat (nat t div 10) @ ''.'' @ [digit_char (nat t)]"
proof -
  define x where "x = float_mul c 100"
  have x0: "0 \<le> x" using assms(1) by (simp add: x_def float_mul_def fl_nonneg)
  have cabs: "\<bar>c * 100\<bar> = c * 100" using assms(1) by simp
  have "x * 9007199254740992 \<le> c * 900719925474099200 + c * 100 + 1"
    using fl_error_mult(1) [of "c * 100"] by (simp add: x_def float_mul_def cabs)
  with assms(1,2) have "x * 10 < 1000 + 1 / 2" by linarith
  then have xu: "x * 10 < of_int 1000 + 1 / 2" by simp
  show t0: "0 \<le> t" unfolding t_def x_def [symmetric]
    using x0 by (intro round_half_even_nonneg) simp
  show t1: "t \<le> 1000" unfolding t_def x_def [symmetric]
    using xu by (rule round_half_even_le)
  have "round_half_even (fl (of_int t / 10) * 10) = t"
    using t0 t1 by (intro decimal_roundtrip) simp_all
  then show "float_repr_1dp (py_round (float_mul c 100) 1)
           = str_of_nat (nat t div 10) @ ''.'' @ [digit_char (nat t)]"
    by (simp add: float_repr_1dp_def py_round_def t_def Let_def)
qed

section \<open>Properties of the string and list functions\<close>

lemma starts_with_iff: "starts_with kw s \<longleftrightarrow> (\<exists>ss. s = kw @ ss)"
  by (induction kw s rule: starts_with.induct) auto

lemma str_contains_iff: "str_contains kw s \<longleftrightarrow> (\<exists>ps ss. s = ps @ kw @ ss)"
proof (induction s)
  case Nil
  then show ?case by simp
next
  case (Cons c cs)
  show ?case
  proof
    assume "str_contains kw (c # cs)"
    then consider "starts_with kw (c # cs)" | "str_contains kw cs" by auto
    then show "\<exists>ps ss. c # cs = ps @ kw @ ss"
    proof cases
      case 1
      then obtain ss where "c # cs = kw @ ss" by (auto simp: starts_with_iff)
      then have "c # cs = [] @ kw @ ss" by simp
      then show ?thesis by blast
    next
      case 2
      with Cons.IH obtain ps ss where "cs = ps @ kw @ ss" by auto
      then have "c # cs = (c # ps) @ kw @ ss" by simp
      then show ?thesis by blast
    qed
  next
    assume "\<exists>ps ss. c # cs = ps @ kw @ ss"
    then obtain ps ss where eq: "c # cs = ps @ kw @ ss" by auto
    show "str_contains kw (c # cs)"
    proof (cases ps)
      case Nil
      with eq have "starts_with kw (c # cs)" by (auto simp: starts_with_iff)
      then show ?thesis by simp
    next
      case (Cons p ps')
      with eq have "cs = ps' @ kw @ ss" by simp
      with Cons.IH have "str_contains kw cs" by auto
      then show ?thesis by simp
    qed
  qed
qed

lemma foldl_best_mem:
  "foldl (\<lambda>best y. if score best < score y then y else best) x xs \<in> set (x # xs)"
  by (induction xs arbitrary: x) auto

lemma foldl_best_ge:
  "r \<in> set (x # xs) \<Longrightarrow>
     score r \<le> score (foldl (\<lambda>best y. if score best < score y then y else best) x xs)"
proof (induction xs arbitrary: x r)
  case Nil
  then show ?case by simp
next
  case (Cons y ys)
  let ?f = "\<lambda>best y. if score best < score y then y else best"
  let ?x' = "if score x < score y then y else x"
  have eq: "foldl ?f x (y # ys) = foldl ?f ?x' ys" by simp
  have step: "score x \<le> score ?x'" "score y \<le> score ?x'" by auto
  have up: "score ?x' \<le> score (foldl ?f ?x' ys)"
    by (rule Cons.IH) simp
  from Cons.prems consider "r = x" | "r = y" | "r \<in> set ys" by auto
  then have "score r \<le> score (foldl ?f ?x' ys)"
  proof cases
    case 1
    with step(1) up show ?thesis by (blast intro: order_trans)
  next
    case 2
    with step(2) up show ?thesis by (blast intro: order_trans)
  next
    case 3
    then have "r \<in> set (?x' # ys)" by simp
    then show ?thesis by (rule Cons.IH)
  qed
  then show ?case by (simp only: eq)
qed

lemma max_by_score_Inr:
  assumes "results \<noteq> []"
  shows "\<exists>t. max_by_score results = Inr t \<and> t \<in> set results
           \<and> (\<forall>r\<in>set results. score r \<le> score t)"
proof (cases results)
  case Nil
  with assms show ?thesis by simp
next
  case (Cons x xs)
  then show ?thesis
    using foldl_best_mem [of x xs] foldl_best_ge [of _ x xs] by auto
qed

lemma max_by_score_Inl: "max_by_score results = Inl e \<longleftrightarrow> results = [] \<and> e = ValueError"
  by (cases results) auto

lemma normalize_label_cases:
  "normalize_label raw = ''AI Generated'' \<or> normalize_label raw = ''Real''"
  by (simp add: normalize_label_def Let_def)

section \<open>The handler, branch by branch\<close>

lemma not_allowed_iff:
  "not_allowed ct \<longleftrightarrow> ct \<notin> {Some ''image/jpeg'', Some ''image/png'', Some ''image/webp''}"
  by (cases ct) (auto simp: not_allowed_def ALLOWED_EXTENSIONS_def)

lemma validate_image_result:
  "fst (validate_image f) =
     (if not_allowed (content_type f) then (False, invalid_type_msg (content_type f))
      else if 5242880 < length (stream_data f)
        then (False, too_large_msg (length (stream_data f)))
      else (True, []))"
  by (simp add: validate_image_def Let_def seek_end_def tell_def seek_start_def MAX_FILE_SIZE_def)

lemma validate_image_file:
  "snd (validate_image f) = (if not_allowed (content_type f) then f else f\<lparr>stream_pos := 0\<rparr>)"
  by (simp add: validate_image_def Let_def seek_end_def tell_def seek_start_def)

lemma messages_distinct:
  "invalid_type_msg ct \<noteq> too_large_msg n" "invalid_type_msg ct \<noteq> []" "too_large_msg n \<noteq> []"
  by (simp_all add: invalid_type_msg_def too_large_msg_def)

lemma length_upload [simp]: "length (stream_data (upload name ct bs)) = length bs"
  by (simp add: upload_def)

lemma content_type_upload [simp]: "content_type (upload name ct bs) = ct"
  by (simp add: upload_def)

section \<open>The claims about \<^verbatim>\<open>validate_image\<close>\<close>

text \<open>
  Claim C3.  Validation fails with the invalid-type message exactly when the declared content
  type is not one of \<^verbatim>\<open>image/jpeg\<close>, \<^verbatim>\<open>image/png\<close>, \<^verbatim>\<open>image/webp\<close>, whatever the
  size; for an allowed type it fails with the too-large message exactly when the size
  exceeds \<open>5 * 1024 * 1024\<close> bytes; and it succeeds exactly in the remaining case, so a file
  of exactly 5 MiB passes.
\<close>

theorem validate_image_outcome:
  "(fst (validate_image f) = (False, invalid_type_msg (content_type f))
      \<longleftrightarrow> content_type f \<notin> {Some ''image/jpeg'', Some ''image/png'', Some ''image/webp''})
   \<and> (fst (validate_image f) = (False, too_large_msg (length (stream_data f)))
      \<longleftrightarrow> content_type f \<in> {Some ''image/jpeg'', Some ''image/png'', Some ''image/webp''}
          \<and> 5 * 1024 * 1024 < length (stream_data f))
   \<and> (fst (validate_image f) = (True, [])
      \<longleftrightarrow> content_type f \<in> {Some ''image/jpeg'', Some ''image/png'', Some ''image/webp''}
          \<and> length (stream_data f) \<le> 5 * 1024 * 1024)"
  using messages_distinct(1) [of "content_type f" "length (stream_data f)"]
  by (auto simp: validate_image_result not_allowed_iff)

text \<open>A PNG of exactly 5 MiB passes, a JPEG of 6,000,000 bytes is too large, and a GIF is
  of an invalid type.\<close>

theorem validate_image_outcome_witness:
  "fst (validate_image full_png) = (True, [])
   \<and> fst (validate_image large_jpeg) = (False, too_large_msg 6000000)
   \<and> fst (validate_image large_gif) = (False, invalid_type_msg (Some ''image/gif''))"
  using validate_image_outcome [of full_png] validate_image_outcome [of large_jpeg]
    validate_image_outcome [of large_gif]
  by (simp add: full_png_def large_jpeg_def large_gif_def)

text \<open>
  Against claim C2 as stated: a GIF of 6,000,000 bytes is larger than 5,242,880 bytes, and
  it is rejected for its type, not for its size, because the type is checked first.
\<close>

theorem validate_image_invalid_type_when_large:
  "5242880 < length (stream_data large_gif)
   \<and> fst (validate_image large_gif) = (False, invalid_type_msg (Some ''image/gif''))
   \<and> fst (validate_image large_gif) \<noteq> (False, too_large_msg (length (stream_data large_gif)))"
  using messages_distinct(1) [of "Some ''image/gif''" 6000000]
  by (simp add: validate_image_result not_allowed_iff large_gif_def)

text \<open>
  Claim C2, amended.  For every input whose declared content type is allowed and whose size
  is strictly greater than 5,242,880 bytes, validation rejects with the too-large message.
\<close>

theorem validate_image_too_large:
  assumes "content_type f \<in> {Some ''image/jpeg'', Some ''image/png'', Some ''image/webp''}"
    and "5242880 < length (stream_data f)"
  shows "fst (validate_image f) = (False, too_large_msg (length (stream_data f)))"
  using assms by (simp add: validate_image_result not_allowed_iff)

text \<open>A JPEG of 6,000,000 bytes.\<close>

theorem validate_image_too_large_witness:
  "content_type large_jpeg = Some ''image/jpeg'' \<and> length (stream_data large_jpeg) = 6000000
   \<and> fst (validate_image large_jpeg) = (False, too_large_msg 6000000)"
  using validate_image_too_large [of large_jpeg] by (simp add: large_jpeg_def)

text \<open>
  Claim C8.  Validation leaves the uploaded byte stream as it was: the bytes, the file name
  and the content type are unchanged; the position is untouched when the type is rejected
  and back at the start once the size has been measured.  So after validating a fresh upload,
  whether it passes or not, a read returns all its bytes from the start.
\<close>

theorem validate_image_keeps_stream:
  "stream_data (snd (validate_image f)) = stream_data f
   \<and> filename (snd (validate_image f)) = filename f
   \<and> content_type (snd (validate_image f)) = content_type f
   \<and> stream_pos (snd (validate_image f)) = (if not_allowed (content_type f) then stream_pos f else 0)
   \<and> (stream_pos f = 0 \<longrightarrow>
        stream_pos (snd (validate_image f)) = 0
        \<and> fst (read_all (snd (validate_image f))) = stream_data f)"
  by (simp add: validate_image_file read_all_def)

text \<open>A small JPEG that passes and a large GIF that does not: both are read in full
  afterwards.\<close>

theorem validate_image_keeps_stream_witness:
  "stream_pos small_jpeg = 0
   \<and> fst (validate_image small_jpeg) = (True, [])
   \<and> fst (read_all (snd (validate_image small_jpeg))) = ''JFIF''
   \<and> fst (validate_image large_gif) = (False, invalid_type_msg (Some ''image/gif''))
   \<and> fst (read_all (snd (validate_image large_gif))) = stream_data large_gif"
  using validate_image_keeps_stream [of small_jpeg] validate_image_keeps_stream [of large_gif]
  by (simp add: validate_image_result not_allowed_iff small_jpeg_def large_gif_def upload_def)

text \<open>
  Claim C10.  The handler checks that the model is loaded before it looks at the request:
  without a model every request gets 503, whatever it carries.  And validation checks the
  content type before the size: an upload that fails both is reported as of invalid type.
\<close>

theorem gate_order:
  "predict None decode req = Inr (ErrorBody ''Model not loaded. Please check server logs.'', 503)
   \<and> (content_type f \<notin> {Some ''image/jpeg'', Some ''image/png'', Some ''image/webp''}
        \<and> 5242880 < length (stream_data f)
      \<longrightarrow> fst (validate_image f) = (False, invalid_type_msg (content_type f)))"
  by (simp add: predict_def validate_image_result not_allowed_iff)

text \<open>A request whose upload has no content type and is one byte over the limit.\<close>

theorem gate_order_witness:
  "predict None rejecting_decode (image_request large_untyped)
     = Inr (ErrorBody ''Model not loaded. Please check server logs.'', 503)
   \<and> 5242880 < length (stream_data large_untyped)
   \<and> fst (validate_image large_untyped) = (False, invalid_type_msg None)"
  using gate_order [of rejecting_decode "image_request large_untyped" large_untyped]
  by (simp add: large_untyped_def)

end
